theory Spec2Isabelle
  imports
    Main
    "HOL-Library.Char_ord"
    "HOL-Library.List_Lexorder"
    "HOL-Library.Multiset"
    "HOL-Library.Product_Lexorder"
begin

section \<open>Data model\<close>

text \<open>
  Byte strings (keys in PEM format, messages, passphrases) and key algorithm names are
  lists of characters. A keychain UUID is the natural number it encodes.
\<close>

type_synonym bytes = string
type_synonym uuid = nat

text \<open>
  The exceptions that \<^verbatim>\<open>escrow.py\<close> raises, catches or lets through. The exceptions
  raised in \<^verbatim>\<open>escrow.py\<close> with a text that callers match on carry this text;
  for the others only the class is modelled. \<open>OtherError\<close> stands for any
  exception class that \<^verbatim>\<open>escrow.py\<close> never names.
\<close>

datatype error =
    KeyDoesNotExist
  | KeyAlreadyExists
  | KeyLoadingError
  | AuthorizationError
  | DecryptionError string
  | ValueError string
  | AssertionError
  | OtherError string

fun is_DecryptionError :: "error \<Rightarrow> bool" where
  "is_DecryptionError (DecryptionError m) = True"
| "is_DecryptionError e = False"

text \<open>The keypair dictionary with its entries \<^verbatim>\<open>public_key\<close> and \<^verbatim>\<open>private_key\<close>.\<close>

record keypair =
  public_key :: bytes
  private_key :: bytes

section \<open>Key storage\<close>

text \<open>
  The calls that reach the key storage are recorded in the order in which they are made,
  so that a property "without any access to the key storage" can be stated.
\<close>

datatype ks_call =
    GetPublicKey uuid string
  | GetPrivateKey uuid string
  | SetKeys uuid string
  | AttachFreeKeypair uuid string
  | GetFreeKeypairsCount string
  | AddFreeKeypair string

record key_storage =
  keypairs :: "uuid \<times> string \<Rightarrow> keypair option"
  free_keypairs :: "string \<Rightarrow> keypair list"
  calls :: "ks_call list"

definition record_call :: "ks_call \<Rightarrow> key_storage \<Rightarrow> key_storage" where
  "record_call c ks = ks\<lparr>calls := calls ks @ [c]\<rparr>"

text \<open>
  Modelled from the spec: the module \<^verbatim>\<open>wacryptolib.key_storage\<close> (class
  \<^verbatim>\<open>KeyStorageBase\<close> and its in-memory implementation) is not among the sources.
  The store is keyed by \<open>(keychain_uid, key_algo)\<close>; \<open>set_keys\<close> fails with
  \<open>KeyAlreadyExists\<close> on a second write for the same key; the two getters fail with
  \<open>KeyDoesNotExist\<close> when the key is absent; \<open>attach_free_keypair_to_uuid\<close> consumes
  one free keypair of the algorithm and binds it to the UUID, and fails with
  \<open>KeyDoesNotExist\<close> when the pool of this algorithm is empty. The pool of an algorithm
  is a list: a keypair is added at its end and consumed from its front.
\<close>

definition set_keys ::
  "key_storage \<Rightarrow> uuid \<Rightarrow> string \<Rightarrow> bytes \<Rightarrow> bytes \<Rightarrow> (error + unit) \<times> key_storage" where
  "set_keys ks keychain_uid key_algo pub priv =
     (let ks1 = record_call (SetKeys keychain_uid key_algo) ks in
      case keypairs ks1 (keychain_uid, key_algo) of
        Some kp \<Rightarrow> (Inl KeyAlreadyExists, ks1)
      | None \<Rightarrow>
          (Inr (),
           ks1\<lparr>keypairs := (keypairs ks1)
             ((keychain_uid, key_algo) \<mapsto> \<lparr>public_key = pub, private_key = priv\<rparr>)\<rparr>))"

definition get_public_key ::
  "key_storage \<Rightarrow> uuid \<Rightarrow> string \<Rightarrow> (error + bytes) \<times> key_storage" where
  "get_public_key ks keychain_uid key_algo =
     (let ks1 = record_call (GetPublicKey keychain_uid key_algo) ks in
      case keypairs ks1 (keychain_uid, key_algo) of
        None \<Rightarrow> (Inl KeyDoesNotExist, ks1)
      | Some kp \<Rightarrow> (Inr (public_key kp), ks1))"

definition get_private_key ::
  "key_storage \<Rightarrow> uuid \<Rightarrow> string \<Rightarrow> (error + bytes) \<times> key_storage" where
  "get_private_key ks keychain_uid key_algo =
     (let ks1 = record_call (GetPrivateKey keychain_uid key_algo) ks in
      case keypairs ks1 (keychain_uid, key_algo) of
        None \<Rightarrow> (Inl KeyDoesNotExist, ks1)
      | Some kp \<Rightarrow> (Inr (private_key kp), ks1))"

definition get_free_keypairs_count :: "key_storage \<Rightarrow> string \<Rightarrow> nat \<times> key_storage" where
  "get_free_keypairs_count ks key_algo =
     (length (free_keypairs ks key_algo), record_call (GetFreeKeypairsCount key_algo) ks)"

definition add_free_keypair ::
  "key_storage \<Rightarrow> string \<Rightarrow> bytes \<Rightarrow> bytes \<Rightarrow> key_storage" where
  "add_free_keypair ks key_algo pub priv =
     (let ks1 = record_call (AddFreeKeypair key_algo) ks in
      ks1\<lparr>free_keypairs := (free_keypairs ks1)
        (key_algo := free_keypairs ks1 key_algo @ [\<lparr>public_key = pub, private_key = priv\<rparr>])\<rparr>)"

definition attach_free_keypair_to_uuid ::
  "key_storage \<Rightarrow> uuid \<Rightarrow> string \<Rightarrow> (error + unit) \<times> key_storage" where
  "attach_free_keypair_to_uuid ks keychain_uid key_algo =
     (let ks1 = record_call (AttachFreeKeypair keychain_uid key_algo) ks in
      case free_keypairs ks1 key_algo of
        [] \<Rightarrow> (Inl KeyDoesNotExist, ks1)
      | kp # rest \<Rightarrow>
          (case keypairs ks1 (keychain_uid, key_algo) of
             Some old \<Rightarrow> (Inl KeyAlreadyExists, ks1)
           | None \<Rightarrow>
               (Inr (),
                ks1\<lparr>keypairs := (keypairs ks1)((keychain_uid, key_algo) \<mapsto> kp),
                    free_keypairs := (free_keypairs ks1)(key_algo := rest)\<rparr>)))"

section \<open>Cryptographic collaborators\<close>

text \<open>
  The functions that \<^verbatim>\<open>escrow.py\<close> imports from the modules
  \<^verbatim>\<open>key_generation\<close>, \<^verbatim>\<open>signature\<close>, \<^verbatim>\<open>encryption\<close> and
  \<^verbatim>\<open>utilities\<close> are not among the sources: they are parameters of the model.
  Each one returns a value or raises; \<open>'k\<close> is the type of loaded key objects, \<open>'sg\<close>
  of signature structures and \<open>'c\<close> of cipher dictionaries. \<open>truth_value\<close> is the
  truth value Python gives a key object (used by \<^verbatim>\<open>assert res\<close>), and
  \<open>generate_uuid0\<close> the UUID that a call of this generator returns.
\<close>

record ('k, 'sg, 'c) primitives =
  generate_keypair :: "string \<Rightarrow> bytes option \<Rightarrow> error + keypair"
  load_asymmetric_key_from_pem_bytestring :: "bytes \<Rightarrow> string \<Rightarrow> bytes option \<Rightarrow> error + 'k"
  sign_message :: "bytes \<Rightarrow> string \<Rightarrow> 'k \<Rightarrow> error + 'sg"
  decrypt_via_rsa_oaep :: "'c \<Rightarrow> 'k \<Rightarrow> error + bytes"
  truth_value :: "'k \<Rightarrow> bool"
  generate_uuid0 :: uuid

section \<open>The escrow API\<close>

definition MAX_PAYLOAD_LENGTH_FOR_SIGNATURE :: nat where
  "MAX_PAYLOAD_LENGTH_FOR_SIGNATURE = 128"

definition generate_keypair_for_storage ::
  "('k, 'sg, 'c) primitives \<Rightarrow> string \<Rightarrow> key_storage \<Rightarrow> uuid option \<Rightarrow> bytes option
     \<Rightarrow> (error + keypair) \<times> key_storage" where
  "generate_keypair_for_storage pr key_algo ks keychain_uid passphrase =
     (let kuid = (case keychain_uid of Some u \<Rightarrow> u | None \<Rightarrow> generate_uuid0 pr) in
      case generate_keypair pr key_algo passphrase of
        Inl e \<Rightarrow> (Inl e, ks)
      | Inr kp \<Rightarrow>
          (case set_keys ks kuid key_algo (public_key kp) (private_key kp) of
             (Inl e, ks1) \<Rightarrow> (Inl e, ks1)
           | (Inr u, ks1) \<Rightarrow> (Inr kp, ks1)))"

text \<open>The two classes of the module; the second one overrides \<open>_ensure_keypair_exists\<close>.\<close>

datatype api_class = EscrowApi | ReadonlyEscrowApi

definition ensure_keypair_exists ::
  "('k, 'sg, 'c) primitives \<Rightarrow> key_storage \<Rightarrow> uuid \<Rightarrow> string \<Rightarrow> (error + unit) \<times> key_storage" where
  "ensure_keypair_exists pr ks keychain_uid key_algo =
     (case get_public_key ks keychain_uid key_algo of
        (Inr pub, ks1) \<Rightarrow> (Inr (), ks1)
      | (Inl e, ks1) \<Rightarrow>
          if e \<noteq> KeyDoesNotExist then (Inl e, ks1)
          else
            (case attach_free_keypair_to_uuid ks1 keychain_uid key_algo of
               (Inr u, ks2) \<Rightarrow> (Inr (), ks2)
             | (Inl e2, ks2) \<Rightarrow>
                 if e2 \<noteq> KeyDoesNotExist then (Inl e2, ks2)
                 else
                   (case generate_keypair_for_storage pr key_algo ks2 (Some keychain_uid) None of
                      (Inl e3, ks3) \<Rightarrow> (Inl e3, ks3)
                    | (Inr kp, ks3) \<Rightarrow> (Inr (), ks3))))"

definition readonly_ensure_keypair_exists ::
  "key_storage \<Rightarrow> uuid \<Rightarrow> string \<Rightarrow> (error + unit) \<times> key_storage" where
  "readonly_ensure_keypair_exists ks keychain_uid key_algo =
     (case get_public_key ks keychain_uid key_algo of
        (Inr pub, ks1) \<Rightarrow> (Inr (), ks1)
      | (Inl e, ks1) \<Rightarrow>
          if e = KeyDoesNotExist then (Inl KeyDoesNotExist, ks1) else (Inl e, ks1))"

text \<open>The method \<open>_ensure_keypair_exists\<close> that an instance of the class runs.\<close>

fun self_ensure_keypair_exists ::
  "api_class \<Rightarrow> ('k, 'sg, 'c) primitives \<Rightarrow> key_storage \<Rightarrow> uuid \<Rightarrow> string
     \<Rightarrow> (error + unit) \<times> key_storage" where
  "self_ensure_keypair_exists EscrowApi pr ks keychain_uid key_algo =
     ensure_keypair_exists pr ks keychain_uid key_algo"
| "self_ensure_keypair_exists ReadonlyEscrowApi pr ks keychain_uid key_algo =
     readonly_ensure_keypair_exists ks keychain_uid key_algo"

definition fetch_public_key ::
  "api_class \<Rightarrow> ('k, 'sg, 'c) primitives \<Rightarrow> key_storage \<Rightarrow> uuid \<Rightarrow> string \<Rightarrow> bool
     \<Rightarrow> (error + bytes) \<times> key_storage" where
  "fetch_public_key cls pr ks keychain_uid key_algo must_exist =
     (if \<not> must_exist then
        (case self_ensure_keypair_exists cls pr ks keychain_uid key_algo of
           (Inl e, ks1) \<Rightarrow> (Inl e, ks1)
         | (Inr u, ks1) \<Rightarrow> get_public_key ks1 keychain_uid key_algo)
      else get_public_key ks keychain_uid key_algo)"

definition get_message_signature ::
  "api_class \<Rightarrow> ('k, 'sg, 'c) primitives \<Rightarrow> key_storage \<Rightarrow> uuid \<Rightarrow> bytes \<Rightarrow> string
     \<Rightarrow> (error + 'sg) \<times> key_storage" where
  "get_message_signature cls pr ks keychain_uid message signature_algo =
     (if length message > MAX_PAYLOAD_LENGTH_FOR_SIGNATURE then
        (Inl (ValueError ''Message too big for signing, only a hash should be sent''), ks)
      else
        (case self_ensure_keypair_exists cls pr ks keychain_uid signature_algo of
           (Inl e, ks1) \<Rightarrow> (Inl e, ks1)
         | (Inr u, ks1) \<Rightarrow>
             (case get_private_key ks1 keychain_uid signature_algo of
                (Inl e, ks2) \<Rightarrow> (Inl e, ks2)
              | (Inr private_key_pem, ks2) \<Rightarrow>
                  (case load_asymmetric_key_from_pem_bytestring pr
                          private_key_pem signature_algo None of
                     Inl e \<Rightarrow> (Inl e, ks2)
                   | Inr key \<Rightarrow>
                       (case sign_message pr message signature_algo key of
                          Inl e \<Rightarrow> (Inl e, ks2)
                        | Inr signature \<Rightarrow> (Inr signature, ks2))))))"

text \<open>
  The base implementation of \<open>_check_keypair_authorization\<close>: it returns, so
  decryption is always allowed. A subclass overrides it, so the methods that call it take
  the instance's method \<open>chk\<close> as a parameter.
\<close>

definition check_keypair_authorization :: "uuid \<Rightarrow> string \<Rightarrow> error + unit" where
  "check_keypair_authorization keychain_uid key_algo = Inr ()"

text \<open>The decimal digits of a number, as the format \<^verbatim>\<open>%d\<close> prints them.\<close>

fun str_nat :: "nat \<Rightarrow> string" where
  "str_nat n =
     (if n < 10 then [char_of (48 + n)]
      else str_nat (n div 10) @ [char_of (48 + n mod 10)])"

declare str_nat.simps [simp del]

text \<open>
  The loop of \<open>_decrypt_private_key_pem_with_passphrases\<close> over the candidates: the
  first candidate that loads the key ends it, a \<open>KeyLoadingError\<close> moves on to the
  next candidate, any other exception leaves the method. \<open>None\<close> is the end of the
  loop with no key loaded.
\<close>

fun try_passphrases ::
  "('k, 'sg, 'c) primitives \<Rightarrow> bytes \<Rightarrow> string \<Rightarrow> bytes option list \<Rightarrow> (error + 'k) option" where
  "try_passphrases pr private_key_pem key_algo [] = None"
| "try_passphrases pr private_key_pem key_algo (passphrase # rest) =
     (case load_asymmetric_key_from_pem_bytestring pr private_key_pem key_algo passphrase of
        Inr key_obj \<Rightarrow> Some (Inr key_obj)
      | Inl e \<Rightarrow>
          if e = KeyLoadingError then try_passphrases pr private_key_pem key_algo rest
          else Some (Inl e))"

definition decrypt_private_key_pem_with_passphrases ::
  "('k, 'sg, 'c) primitives \<Rightarrow> bytes \<Rightarrow> string \<Rightarrow> bytes list \<Rightarrow> error + 'k" where
  "decrypt_private_key_pem_with_passphrases pr private_key_pem key_algo passphrases =
     (case try_passphrases pr private_key_pem key_algo (None # map Some passphrases) of
        Some r \<Rightarrow> r
      | None \<Rightarrow>
          Inl (DecryptionError
            (''Could not decrypt private key of type '' @ key_algo @
             '' (passphrases provided: '' @ str_nat (length passphrases) @ '')'')))"

text \<open>
  \<^verbatim>\<open>str.upper\<close> on the ASCII letters (the names of the algorithms are ASCII).
\<close>

definition upper_char :: "char \<Rightarrow> char" where
  "upper_char c =
     (let n = (of_char c :: nat) in if 97 \<le> n \<and> n \<le> 122 then char_of (n - 32) else c)"

definition upper :: "string \<Rightarrow> string" where
  "upper s = map upper_char s"

text \<open>
  \<open>passphrases\<close> is the optional list of the signature and of the docstring;
  \<^verbatim>\<open>passphrases or []\<close> turns \<open>None\<close> into the empty list, and the assertion
  on the type of \<open>passphrases\<close> holds for every list. A tuple, which this assertion
  admits as well, is not a value of the model: on a tuple that is not empty the
  concatenation \<^verbatim>\<open>[None] + passphrases\<close> raises \<open>TypeError\<close>.
\<close>

definition decrypt_with_private_key ::
  "('k, 'sg, 'c) primitives \<Rightarrow> key_storage \<Rightarrow> uuid \<Rightarrow> string \<Rightarrow> 'c \<Rightarrow> bytes list option
     \<Rightarrow> (error + bytes) \<times> key_storage" where
  "decrypt_with_private_key pr ks keychain_uid encryption_algo cipherdict passphrases =
     (if upper encryption_algo \<noteq> ''RSA_OAEP'' then (Inl AssertionError, ks)
      else
        let passphrases1 = (case passphrases of None \<Rightarrow> [] | Some ps \<Rightarrow> ps) in
        case get_private_key ks keychain_uid encryption_algo of
          (Inl e, ks1) \<Rightarrow> (Inl e, ks1)
        | (Inr private_key_pem, ks1) \<Rightarrow>
            (case decrypt_private_key_pem_with_passphrases pr
                    private_key_pem encryption_algo passphrases1 of
               Inl e \<Rightarrow> (Inl e, ks1)
             | Inr key \<Rightarrow> (decrypt_via_rsa_oaep pr cipherdict key, ks1)))"

text \<open>
  \<^verbatim>\<open>min\<close> over a non-empty sequence keeps the first of the smallest elements:
  \<open>min_from m xs\<close> goes on from the smallest element \<open>m\<close> seen so far.
\<close>

fun min_from :: "'a::linorder \<Rightarrow> 'a list \<Rightarrow> 'a" where
  "min_from m [] = m"
| "min_from m (x # xs) = min_from (if x < m then x else m) xs"

text \<open>
  The list comprehension of the pairs \<open>(count, key_algo)\<close>, one call of the key storage
  for each algorithm, in the order of \<open>key_algos\<close>.
\<close>

fun free_keys_counts :: "key_storage \<Rightarrow> string list \<Rightarrow> (nat \<times> string) list \<times> key_storage" where
  "free_keys_counts ks [] = ([], ks)"
| "free_keys_counts ks (key_algo # rest) =
     (case get_free_keypairs_count ks key_algo of
        (n, ks1) \<Rightarrow>
          (case free_keys_counts ks1 rest of
             (counts, ks2) \<Rightarrow> ((n, key_algo) # counts, ks2)))"

text \<open>
  \<open>key_generation_func\<close> and \<open>key_algos\<close> are the parameters of the function (their
  defaults are \<open>generate_keypair\<close> and a constant that is not among the sources). Pairs
  are compared as Python compares tuples: the counts first, then the names.
\<close>

definition generate_free_keypair_for_least_provisioned_key_algo ::
  "key_storage \<Rightarrow> int \<Rightarrow> (string \<Rightarrow> error + keypair) \<Rightarrow> string list
     \<Rightarrow> (error + bool) \<times> key_storage" where
  "generate_free_keypair_for_least_provisioned_key_algo
       ks max_free_keys_per_algo key_generation_func key_algos =
     (if key_algos = [] then (Inl AssertionError, ks)
      else
        case free_keys_counts ks key_algos of
          (counts, ks1) \<Rightarrow>
            (case counts of
               [] \<Rightarrow> (Inl (ValueError ''min() arg is an empty sequence''), ks1)
             | c # cs \<Rightarrow>
                 (case min_from c cs of
                    (cnt, key_algo) \<Rightarrow>
                      if int cnt \<ge> max_free_keys_per_algo then (Inr False, ks1)
                      else
                        (case key_generation_func key_algo of
                           Inl e \<Rightarrow> (Inl e, ks1)
                         | Inr kp \<Rightarrow>
                             (Inr True,
                              add_free_keypair ks1 key_algo
                                (public_key kp) (private_key kp))))))"

text \<open>
  A keypair identifier is a dictionary with the entries \<^verbatim>\<open>keychain_uid\<close> and
  \<^verbatim>\<open>key_algo\<close>; the answer to an authorization request has the three entries
  below, the last of them the four lists of identifiers.
\<close>

record keypair_identifier =
  keychain_uid :: uuid
  key_algo :: string

record keypair_statuses =
  missing_private_key :: "keypair_identifier list"
  authorization_missing :: "keypair_identifier list"
  missing_passphrase :: "keypair_identifier list"
  accepted :: "keypair_identifier list"

record authorization_response =
  response_message :: string
  has_errors :: bool
  keypair_statuses :: keypair_statuses

text \<open>
  The third \<^verbatim>\<open>try\<close> block of the loop: the key is decrypted with the
  candidate passphrases, and the result is asserted to be true.
\<close>

definition checked_private_key ::
  "('k, 'sg, 'c) primitives \<Rightarrow> bytes \<Rightarrow> string \<Rightarrow> bytes list \<Rightarrow> error + 'k" where
  "checked_private_key pr private_key_pem algo passphrases =
     (case decrypt_private_key_pem_with_passphrases pr private_key_pem algo passphrases of
        Inl e \<Rightarrow> Inl e
      | Inr res \<Rightarrow> if truth_value pr res then Inr res else Inl AssertionError)"

text \<open>
  The loop over the identifiers, with the four lists built so far. \<open>chk\<close> is the
  instance's \<open>_check_keypair_authorization\<close>.
\<close>

fun authorization_loop ::
  "(uuid \<Rightarrow> string \<Rightarrow> error + unit) \<Rightarrow> ('k, 'sg, 'c) primitives \<Rightarrow> bytes list
     \<Rightarrow> keypair_identifier list \<Rightarrow> keypair_statuses \<Rightarrow> key_storage
     \<Rightarrow> (error + keypair_statuses) \<times> key_storage" where
  "authorization_loop chk pr passphrases [] st ks = (Inr st, ks)"
| "authorization_loop chk pr passphrases (keypair_identifier # rest) st ks =
     (case chk (keychain_uid keypair_identifier) (key_algo keypair_identifier) of
        Inl e \<Rightarrow>
          if e = AuthorizationError then
            authorization_loop chk pr passphrases rest
              (st\<lparr>authorization_missing := authorization_missing st @ [keypair_identifier]\<rparr>) ks
          else (Inl e, ks)
      | Inr u \<Rightarrow>
          (case get_private_key ks
                  (keychain_uid keypair_identifier) (key_algo keypair_identifier) of
             (Inl e, ks1) \<Rightarrow>
               if e = KeyDoesNotExist then
                 authorization_loop chk pr passphrases rest
                   (st\<lparr>missing_private_key := missing_private_key st @ [keypair_identifier]\<rparr>)
                   ks1
               else (Inl e, ks1)
           | (Inr private_key_pem, ks1) \<Rightarrow>
               (case checked_private_key pr private_key_pem
                       (key_algo keypair_identifier) passphrases of
                  Inl e \<Rightarrow>
                    if is_DecryptionError e then
                      authorization_loop chk pr passphrases rest
                        (st\<lparr>missing_passphrase := missing_passphrase st @ [keypair_identifier]\<rparr>)
                        ks1
                    else (Inl e, ks1)
                | Inr res \<Rightarrow>
                    authorization_loop chk pr passphrases rest
                      (st\<lparr>accepted := accepted st @ [keypair_identifier]\<rparr>) ks1)))"

definition request_decryption_authorization ::
  "(uuid \<Rightarrow> string \<Rightarrow> error + unit) \<Rightarrow> ('k, 'sg, 'c) primitives \<Rightarrow> key_storage
     \<Rightarrow> keypair_identifier list \<Rightarrow> string \<Rightarrow> bytes list option
     \<Rightarrow> (error + authorization_response) \<times> key_storage" where
  "request_decryption_authorization chk pr ks keypair_identifiers request_message passphrases =
     (let passphrases1 = (case passphrases of None \<Rightarrow> [] | Some ps \<Rightarrow> ps) in
      if keypair_identifiers = [] then
        (Inl (ValueError
           ''Keypair identifiers must not be empty, when requesting decryption authorization''),
         ks)
      else
        case authorization_loop chk pr passphrases1 keypair_identifiers
               \<lparr>missing_private_key = [], authorization_missing = [],
                missing_passphrase = [], accepted = []\<rparr> ks of
          (Inl e, ks1) \<Rightarrow> (Inl e, ks1)
        | (Inr st, ks1) \<Rightarrow>
            let errs = length (accepted st) < length keypair_identifiers in
            if length (missing_private_key st) + length (authorization_missing st)
                 + length (missing_passphrase st) + length (accepted st)
               \<noteq> length keypair_identifiers
            then (Inl AssertionError, ks1)
            else
              (Inr \<lparr>response_message =
                      (if errs then ''Decryption request denied''
                       else ''Decryption request accepted''),
                    has_errors = errs,
                    keypair_statuses = st\<rparr>,
               ks1))"

section \<open>The status of a keypair identifier\<close>

text \<open>The four lists of an answer, as the statuses an identifier can get.\<close>

datatype status = Accepted | MissingPrivateKey | AuthorizationMissing | MissingPassphrase



text \<open>
  What one round of the loop does with an identifier, read off the code: the status it
  files the identifier under, or the exception that leaves the loop.
\<close>

definition step_status ::
  "(uuid \<Rightarrow> string \<Rightarrow> error + unit) \<Rightarrow> ('k, 'sg, 'c) primitives \<Rightarrow> key_storage \<Rightarrow> bytes list
     \<Rightarrow> keypair_identifier \<Rightarrow> error + status" where
  "step_status chk pr ks pps i =
     (case chk (keychain_uid i) (key_algo i) of
        Inl e \<Rightarrow> if e = AuthorizationError then Inr AuthorizationMissing else Inl e
      | Inr u \<Rightarrow>
          (case keypairs ks (keychain_uid i, key_algo i) of
             None \<Rightarrow> Inr MissingPrivateKey
           | Some kp \<Rightarrow>
               (case checked_private_key pr (private_key kp) (key_algo i) pps of
                  Inl e \<Rightarrow> if is_DecryptionError e then Inr MissingPassphrase else Inl e
                | Inr res \<Rightarrow> Inr Accepted)))"

text \<open>The identifiers of a list that get a given status, in the order of the list.\<close>

definition with_status ::
  "(keypair_identifier \<Rightarrow> error + status) \<Rightarrow> status \<Rightarrow> keypair_identifier list
     \<Rightarrow> keypair_identifier list" where
  "with_status f s ids = filter (\<lambda>i. f i = Inr s) ids"

text \<open>Filing an identifier under a status, and the key storage after one round.\<close>

definition put_status :: "status \<Rightarrow> keypair_identifier \<Rightarrow> keypair_statuses \<Rightarrow> keypair_statuses" where
  "put_status s i st =
     (case s of
        Accepted \<Rightarrow> st\<lparr>accepted := accepted st @ [i]\<rparr>
      | MissingPrivateKey \<Rightarrow> st\<lparr>missing_private_key := missing_private_key st @ [i]\<rparr>
      | AuthorizationMissing \<Rightarrow> st\<lparr>authorization_missing := authorization_missing st @ [i]\<rparr>
      | MissingPassphrase \<Rightarrow> st\<lparr>missing_passphrase := missing_passphrase st @ [i]\<rparr>)"

definition touched ::
  "(uuid \<Rightarrow> string \<Rightarrow> error + unit) \<Rightarrow> key_storage \<Rightarrow> keypair_identifier \<Rightarrow> key_storage" where
  "touched chk ks i =
     (case chk (keychain_uid i) (key_algo i) of
        Inl e \<Rightarrow> ks
      | Inr u \<Rightarrow> record_call (GetPrivateKey (keychain_uid i) (key_algo i)) ks)"

text \<open>The four lists after a whole list of identifiers has been filed.\<close>

definition add_statuses ::
  "(keypair_identifier \<Rightarrow> error + status) \<Rightarrow> keypair_identifier list \<Rightarrow> keypair_statuses
     \<Rightarrow> keypair_statuses" where
  "add_statuses f ids st =
     \<lparr>missing_private_key = missing_private_key st @ with_status f MissingPrivateKey ids,
      authorization_missing = authorization_missing st @ with_status f AuthorizationMissing ids,
      missing_passphrase = missing_passphrase st @ with_status f MissingPassphrase ids,
      accepted = accepted st @ with_status f Accepted ids\<rparr>"

definition empty_statuses :: keypair_statuses where
  "empty_statuses =
     \<lparr>missing_private_key = [], authorization_missing = [],
      missing_passphrase = [], accepted = []\<rparr>"

section \<open>Example collaborators and key storage\<close>

text \<open>
  Collaborators for the concrete instances of the theorems: a private key \<open>LOCKED\<close>
  that only the passphrase \<open>secret\<close> loads, and unprotected keys that load without
  a passphrase.
\<close>

definition example_primitives :: "(bytes, bytes, bytes) primitives" where
  "example_primitives =
     \<lparr>generate_keypair =
        (\<lambda>algo pw. Inr \<lparr>public_key = ''PUB:'' @ algo, private_key = ''PRIV:'' @ algo\<rparr>),
      load_asymmetric_key_from_pem_bytestring =
        (\<lambda>pem algo pw.
           if pem = ''LOCKED'' then
             (if pw = Some ''secret'' then Inr ''KEY'' else Inl KeyLoadingError)
           else if pw = None then Inr pem else Inl KeyLoadingError),
      sign_message = (\<lambda>m algo k. Inr (k @ m)),
      decrypt_via_rsa_oaep = (\<lambda>c k. Inr (k @ c)),
      truth_value = (\<lambda>k. True),
      generate_uuid0 = 0\<rparr>"

text \<open>
  A key storage with an unprotected keypair for the UUID 1, a protected one for the UUID 2
  and one free keypair of the algorithm \<open>RSA_PSS\<close>.
\<close>

definition example_key_storage :: key_storage where
  "example_key_storage =
     \<lparr>keypairs =
        [(1, ''RSA_OAEP'') \<mapsto> \<lparr>public_key = ''PUB1'', private_key = ''PRIV1''\<rparr>,
         (2, ''RSA_OAEP'') \<mapsto> \<lparr>public_key = ''PUB2'', private_key = ''LOCKED''\<rparr>],
      free_keypairs =
        (\<lambda>a. if a = ''RSA_PSS'' then [\<lparr>public_key = ''PUB5'', private_key = ''PRIV5''\<rparr>] else []),
      calls = []\<rparr>"

text \<open>An authorization policy of a subclass: it refuses the UUID 4.\<close>

definition example_check :: "uuid \<Rightarrow> string \<Rightarrow> error + unit" where
  "example_check u a = (if u = 4 then Inl AuthorizationError else Inr ())"

definition example_identifiers :: "keypair_identifier list" where
  "example_identifiers =
     [\<lparr>keychain_uid = 1, key_algo = ''RSA_OAEP''\<rparr>, \<lparr>keychain_uid = 2, key_algo = ''RSA_OAEP''\<rparr>,
      \<lparr>keychain_uid = 3, key_algo = ''RSA_OAEP''\<rparr>, \<lparr>keychain_uid = 4, key_algo = ''RSA_OAEP''\<rparr>]"

section \<open>Signature size ceiling\<close>

lemma calls_record_call: "calls (record_call c ks) = calls ks @ [c]"
  by (simp add: record_call_def)

lemma calls_get_public_key:
  "calls (snd (get_public_key ks u a)) = calls ks @ [GetPublicKey u a]"
  by (simp add: get_public_key_def Let_def record_call_def split: option.splits)

lemma calls_get_private_key:
  "calls (snd (get_private_key ks u a)) = calls ks @ [GetPrivateKey u a]"
  by (simp add: get_private_key_def Let_def record_call_def split: option.splits)

lemma calls_set_keys:
  "calls (snd (set_keys ks u a pub priv)) = calls ks @ [SetKeys u a]"
  by (simp add: set_keys_def Let_def record_call_def split: option.splits)

lemma calls_attach_free_keypair_to_uuid:
  "calls (snd (attach_free_keypair_to_uuid ks u a)) = calls ks @ [AttachFreeKeypair u a]"
  by (simp add: attach_free_keypair_to_uuid_def Let_def record_call_def
      split: option.splits list.splits)

lemma calls_generate_keypair_for_storage:
  "length (calls ks) \<le> length (calls (snd (generate_keypair_for_storage pr a ks ku pw)))"
proof (cases "generate_keypair pr a pw")
  case (Inl e)
  then show ?thesis by (simp add: generate_keypair_for_storage_def)
next
  case (Inr kp)
  obtain r ks1 where s: "set_keys ks (case ku of Some u \<Rightarrow> u | None \<Rightarrow> generate_uuid0 pr) a
      (public_key kp) (private_key kp) = (r, ks1)"
    by (cases "set_keys ks (case ku of Some u \<Rightarrow> u | None \<Rightarrow> generate_uuid0 pr) a
      (public_key kp) (private_key kp)")
  have "calls ks1 = calls ks @ [SetKeys (case ku of Some u \<Rightarrow> u | None \<Rightarrow> generate_uuid0 pr) a]"
    using calls_set_keys [of ks _ a "public_key kp" "private_key kp"] s
    by (metis snd_conv)
  with Inr s show ?thesis
    by (simp add: generate_keypair_for_storage_def Let_def split: sum.splits)
qed

lemma calls_ensure_keypair_exists:
  "length (calls ks) < length (calls (snd (ensure_keypair_exists pr ks u a)))"
proof -
  obtain r1 ks1 where g: "get_public_key ks u a = (r1, ks1)"
    by (cases "get_public_key ks u a")
  have c1: "calls ks1 = calls ks @ [GetPublicKey u a]"
    using calls_get_public_key [of ks u a] g by simp
  obtain r2 ks2 where t: "attach_free_keypair_to_uuid ks1 u a = (r2, ks2)"
    by (cases "attach_free_keypair_to_uuid ks1 u a")
  have c2: "calls ks2 = calls ks1 @ [AttachFreeKeypair u a]"
    using calls_attach_free_keypair_to_uuid [of ks1 u a] t by simp
  obtain r3 ks3 where s: "generate_keypair_for_storage pr a ks2 (Some u) None = (r3, ks3)"
    by (cases "generate_keypair_for_storage pr a ks2 (Some u) None")
  have c3: "length (calls ks2) \<le> length (calls ks3)"
    using calls_generate_keypair_for_storage [of ks2 pr a "Some u" None] s by simp
  show ?thesis
    using g t s c1 c2 c3
    by (simp add: ensure_keypair_exists_def split: sum.splits)
qed

lemma calls_readonly_ensure_keypair_exists:
  "length (calls ks) < length (calls (snd (readonly_ensure_keypair_exists ks u a)))"
proof -
  obtain r1 ks1 where g: "get_public_key ks u a = (r1, ks1)"
    by (cases "get_public_key ks u a")
  have c1: "calls ks1 = calls ks @ [GetPublicKey u a]"
    using calls_get_public_key [of ks u a] g by simp
  show ?thesis
    using g c1 by (simp add: readonly_ensure_keypair_exists_def split: sum.splits)
qed

lemma calls_self_ensure_keypair_exists:
  "length (calls ks) < length (calls (snd (self_ensure_keypair_exists cls pr ks u a)))"
  by (cases cls) (simp_all add: calls_ensure_keypair_exists calls_readonly_ensure_keypair_exists)

lemma calls_get_message_signature:
  assumes "length message \<le> 128"
  shows "length (calls ks) < length (calls (snd (get_message_signature cls pr ks u message a)))"
proof -
  obtain r1 ks1 where e: "self_ensure_keypair_exists cls pr ks u a = (r1, ks1)"
    by (cases "self_ensure_keypair_exists cls pr ks u a")
  have c1: "length (calls ks) < length (calls ks1)"
    using calls_self_ensure_keypair_exists [of ks cls pr u a] e by simp
  obtain r2 ks2 where g: "get_private_key ks1 u a = (r2, ks2)"
    by (cases "get_private_key ks1 u a")
  have c2: "calls ks2 = calls ks1 @ [GetPrivateKey u a]"
    using calls_get_private_key [of ks1 u a] g by simp
  show ?thesis
    using assms e g c1 c2
    by (simp add: get_message_signature_def MAX_PAYLOAD_LENGTH_FOR_SIGNATURE_def
        split: sum.splits)
qed

text \<open>
  Claim C3. \<open>get_message_signature\<close> raises the \<open>ValueError\<close> of an oversize message,
  with the key storage untouched, exactly when the message is longer than 128 bytes: a
  message of at most 128 bytes passes the size check, and the call goes on to the key
  storage (so it cannot end in the untouched state).
\<close>

theorem get_message_signature_size_ceiling:
  "(get_message_signature cls pr ks kuid message algo =
      (Inl (ValueError ''Message too big for signing, only a hash should be sent''), ks))
   = (128 < length message)"
proof (cases "128 < length message")
  case True
  then show ?thesis
    by (simp add: get_message_signature_def MAX_PAYLOAD_LENGTH_FOR_SIGNATURE_def)
next
  case False
  then have "length (calls ks)
      < length (calls (snd (get_message_signature cls pr ks kuid message algo)))"
    by (simp add: calls_get_message_signature)
  then have "snd (get_message_signature cls pr ks kuid message algo) \<noteq> ks"
    by auto
  with False show ?thesis by auto
qed

section \<open>Authorization requests\<close>

lemma keypairs_record_call [simp]: "keypairs (record_call c ks) = keypairs ks"
  by (simp add: record_call_def)

lemma free_keypairs_record_call [simp]: "free_keypairs (record_call c ks) = free_keypairs ks"
  by (simp add: record_call_def)

lemma get_private_key_eq:
  "get_private_key ks u a =
     ((case keypairs ks (u, a) of None \<Rightarrow> Inl KeyDoesNotExist | Some kp \<Rightarrow> Inr (private_key kp)),
      record_call (GetPrivateKey u a) ks)"
  by (simp add: get_private_key_def Let_def split: option.splits)

lemma step_status_cong:
  "keypairs ks1 = keypairs ks \<Longrightarrow> step_status chk pr ks1 pps = step_status chk pr ks pps"
  by (rule ext) (simp add: step_status_def split: sum.splits)

lemma authorization_loop_step:
  "authorization_loop chk pr pps (i # ids) st ks =
     (case step_status chk pr ks pps i of
        Inl e \<Rightarrow> (Inl e, touched chk ks i)
      | Inr s \<Rightarrow> authorization_loop chk pr pps ids (put_status s i st) (touched chk ks i))"
proof (cases "chk (keychain_uid i) (key_algo i)")
  case (Inl e)
  then show ?thesis
    by (simp add: step_status_def touched_def put_status_def)
next
  case chk_ok: (Inr u)
  show ?thesis
  proof (cases "keypairs ks (keychain_uid i, key_algo i)")
    case None
    with chk_ok show ?thesis
      by (simp add: step_status_def touched_def put_status_def get_private_key_eq)
  next
    case (Some kp)
    show ?thesis
    proof (cases "checked_private_key pr (private_key kp) (key_algo i) pps")
      case (Inl e)
      with chk_ok Some show ?thesis
        by (simp add: step_status_def touched_def put_status_def get_private_key_eq)
    next
      case (Inr res)
      with chk_ok Some show ?thesis
        by (simp add: step_status_def touched_def put_status_def get_private_key_eq)
    qed
  qed
qed

lemma keypairs_touched [simp]: "keypairs (touched chk ks i) = keypairs ks"
  by (simp add: touched_def split: sum.splits)

lemma free_keypairs_touched [simp]: "free_keypairs (touched chk ks i) = free_keypairs ks"
  by (simp add: touched_def split: sum.splits)

lemma step_status_touched [simp]:
  "step_status chk pr (touched chk ks i) pps = step_status chk pr ks pps"
  by (rule step_status_cong) simp

declare authorization_loop.simps(2) [simp del]



lemma add_statuses_Nil: "add_statuses f [] st = st"
  by (simp add: add_statuses_def with_status_def)

lemma add_statuses_Cons:
  "f i = Inr s \<Longrightarrow> add_statuses f (i # ids) st = add_statuses f ids (put_status s i st)"
  by (cases s) (simp_all add: add_statuses_def with_status_def put_status_def)

lemma authorization_loop_all_classified:
  "\<forall>i\<in>set ids. \<not> isl (step_status chk pr ks pps i) \<Longrightarrow>
   fst (authorization_loop chk pr pps ids st ks) = Inr (add_statuses (step_status chk pr ks pps) ids st)"
proof (induction ids arbitrary: st ks)
  case Nil
  show ?case by (simp add: add_statuses_Nil)
next
  case (Cons i ids)
  from Cons.prems obtain s where s: "step_status chk pr ks pps i = Inr s"
    by (cases "step_status chk pr ks pps i") auto
  from Cons.prems have rest: "\<forall>j\<in>set ids. \<not> isl (step_status chk pr (touched chk ks i) pps j)"
    by simp
  show ?case
    using Cons.IH [OF rest, of "put_status s i st"] s
    by (simp add: authorization_loop_step add_statuses_Cons)
qed

lemma authorization_loop_returns:
  "fst (authorization_loop chk pr pps ids st ks) = Inr st' \<Longrightarrow>
   \<forall>i\<in>set ids. \<not> isl (step_status chk pr ks pps i)"
proof (induction ids arbitrary: st ks)
  case Nil
  show ?case by simp
next
  case (Cons i ids)
  show ?case
  proof (cases "step_status chk pr ks pps i")
    case (Inl e)
    with Cons.prems show ?thesis by (simp add: authorization_loop_step)
  next
    case (Inr s)
    with Cons.prems have "fst (authorization_loop chk pr pps ids (put_status s i st) (touched chk ks i)) = Inr st'"
      by (simp add: authorization_loop_step)
    from Cons.IH [OF this] Inr show ?thesis by simp
  qed
qed

lemma with_status_length:
  "\<forall>i\<in>set ids. \<not> isl (f i) \<Longrightarrow>
   length (with_status f MissingPrivateKey ids) + length (with_status f AuthorizationMissing ids)
     + length (with_status f MissingPassphrase ids) + length (with_status f Accepted ids)
   = length ids"
proof (induction ids)
  case Nil
  show ?case by (simp add: with_status_def)
next
  case (Cons i ids)
  from Cons.prems obtain s where s: "f i = Inr s"
    by (cases "f i") auto
  from Cons.prems have "\<forall>j\<in>set ids. \<not> isl (f j)" by simp
  from Cons.IH [OF this] s show ?case
    by (cases s) (simp_all add: with_status_def)
qed

lemma with_status_mset:
  "\<forall>i\<in>set ids. \<not> isl (f i) \<Longrightarrow>
   mset (with_status f MissingPrivateKey ids @ with_status f AuthorizationMissing ids
     @ with_status f MissingPassphrase ids @ with_status f Accepted ids)
   = mset ids"
proof (induction ids)
  case Nil
  show ?case by (simp add: with_status_def)
next
  case (Cons i ids)
  from Cons.prems obtain s where s: "f i = Inr s"
    by (cases "f i") auto
  from Cons.prems have "\<forall>j\<in>set ids. \<not> isl (f j)" by simp
  from Cons.IH [OF this] s show ?case
    by (cases s) (simp_all add: with_status_def)
qed

lemma with_status_member: "i \<in> set (with_status f s ids) \<longleftrightarrow> i \<in> set ids \<and> f i = Inr s"
  by (simp add: with_status_def)

lemma with_status_exactly_one:
  assumes "i \<in> set ids" and "\<not> isl (f i)"
  shows "length (filter (\<lambda>l. i \<in> set l)
           [with_status f MissingPrivateKey ids, with_status f AuthorizationMissing ids,
            with_status f MissingPassphrase ids, with_status f Accepted ids]) = 1"
proof -
  from assms obtain s where s: "f i = Inr s"
    by (cases "f i") auto
  with assms(1) show ?thesis
    by (cases s) (simp_all add: with_status_member)
qed

lemma add_statuses_empty:
  "add_statuses f ids empty_statuses =
     \<lparr>missing_private_key = with_status f MissingPrivateKey ids,
      authorization_missing = with_status f AuthorizationMissing ids,
      missing_passphrase = with_status f MissingPassphrase ids,
      accepted = with_status f Accepted ids\<rparr>"
  by (simp add: add_statuses_def empty_statuses_def)

lemma request_decryption_authorization_returns:
  assumes "ids \<noteq> []"
    and "\<forall>i\<in>set ids. \<not> isl (step_status chk pr ks (case pps of None \<Rightarrow> [] | Some ps \<Rightarrow> ps) i)"
  shows "fst (request_decryption_authorization chk pr ks ids msg pps) =
     Inr \<lparr>response_message =
            (if length (with_status (step_status chk pr ks (case pps of None \<Rightarrow> [] | Some ps \<Rightarrow> ps))
                   Accepted ids) < length ids
             then ''Decryption request denied'' else ''Decryption request accepted''),
          has_errors =
            (length (with_status (step_status chk pr ks (case pps of None \<Rightarrow> [] | Some ps \<Rightarrow> ps))
                   Accepted ids) < length ids),
          keypair_statuses =
            add_statuses (step_status chk pr ks (case pps of None \<Rightarrow> [] | Some ps \<Rightarrow> ps))
              ids empty_statuses\<rparr>"
proof -
  let ?pps = "case pps of None \<Rightarrow> [] | Some ps \<Rightarrow> ps"
  let ?f = "step_status chk pr ks ?pps"
  obtain r1 ks1 where l: "authorization_loop chk pr ?pps ids empty_statuses ks = (r1, ks1)"
    by (cases "authorization_loop chk pr ?pps ids empty_statuses ks")
  have r1: "r1 = Inr (add_statuses ?f ids empty_statuses)"
    using authorization_loop_all_classified [OF assms(2), of empty_statuses] l by simp
  have len: "length (with_status ?f MissingPrivateKey ids)
      + length (with_status ?f AuthorizationMissing ids)
      + length (with_status ?f MissingPassphrase ids) + length (with_status ?f Accepted ids)
      = length ids"
    using with_status_length [OF assms(2)] .
  show ?thesis
    using assms(1) l r1 len
    by (simp add: request_decryption_authorization_def Let_def add_statuses_empty
        empty_statuses_def [symmetric])
qed

lemma request_decryption_authorization_success:
  assumes "request_decryption_authorization chk pr ks ids msg pps = (Inr r, ks')"
  shows "ids \<noteq> [] \<and>
     (\<forall>i\<in>set ids. \<not> isl (step_status chk pr ks (case pps of None \<Rightarrow> [] | Some ps \<Rightarrow> ps) i))"
proof -
  let ?pps = "case pps of None \<Rightarrow> [] | Some ps \<Rightarrow> ps"
  from assms have ne: "ids \<noteq> []"
    by (auto simp add: request_decryption_authorization_def)
  obtain r1 ks1 where l: "authorization_loop chk pr ?pps ids empty_statuses ks = (r1, ks1)"
    by (cases "authorization_loop chk pr ?pps ids empty_statuses ks")
  from assms ne l obtain st where "r1 = Inr st"
    by (cases r1) (simp_all add: request_decryption_authorization_def Let_def
        empty_statuses_def [symmetric])
  with l have "fst (authorization_loop chk pr ?pps ids empty_statuses ks) = Inr st"
    by simp
  from authorization_loop_returns [OF this] ne show ?thesis by simp
qed


lemma example_request:
  "fst (request_decryption_authorization example_check example_primitives example_key_storage
     example_identifiers ''for the court'' (Some [''wrong''])) =
   Inr \<lparr>response_message = ''Decryption request denied'', has_errors = True,
        keypair_statuses =
          \<lparr>missing_private_key = [\<lparr>keychain_uid = 3, key_algo = ''RSA_OAEP''\<rparr>],
           authorization_missing = [\<lparr>keychain_uid = 4, key_algo = ''RSA_OAEP''\<rparr>],
           missing_passphrase = [\<lparr>keychain_uid = 2, key_algo = ''RSA_OAEP''\<rparr>],
           accepted = [\<lparr>keychain_uid = 1, key_algo = ''RSA_OAEP''\<rparr>]\<rparr>\<rparr>"
  by (simp add: request_decryption_authorization_def example_identifiers_def example_check_def
      example_key_storage_def example_primitives_def authorization_loop.simps
      get_private_key_def record_call_def checked_private_key_def
      decrypt_private_key_pem_with_passphrases_def Let_def)

lemma try_passphrases_find:
  "try_passphrases pr pem a cs =
     (case find (\<lambda>c. load_asymmetric_key_from_pem_bytestring pr pem a c \<noteq> Inl KeyLoadingError) cs of
        None \<Rightarrow> None
      | Some c \<Rightarrow> Some (load_asymmetric_key_from_pem_bytestring pr pem a c))"
proof (induction cs)
  case Nil
  show ?case by simp
next
  case (Cons c cs)
  show ?case
  proof (cases "load_asymmetric_key_from_pem_bytestring pr pem a c")
    case (Inl e)
    with Cons.IH show ?thesis by simp
  next
    case (Inr k)
    then show ?thesis by simp
  qed
qed






text \<open>
  Claim C7. With the authorization check of the base class, every answer that
  \<open>request_decryption_authorization\<close> returns has an empty list
  \<open>authorization_missing\<close>.
\<close>

theorem request_decryption_authorization_base_authorizes:
  assumes "request_decryption_authorization check_keypair_authorization pr ks
             ids request_message passphrases = (Inr r, ks')"
  shows "authorization_missing (keypair_statuses r) = []"
proof -
  let ?pps = "case passphrases of None \<Rightarrow> [] | Some ps \<Rightarrow> ps"
  let ?f = "step_status check_keypair_authorization pr ks ?pps"
  from request_decryption_authorization_success [OF assms]
  have ne: "ids \<noteq> []" and all: "\<forall>i\<in>set ids. \<not> isl (?f i)" by simp_all
  from request_decryption_authorization_returns [OF ne all, of request_message] assms
  have st: "keypair_statuses r = add_statuses ?f ids empty_statuses"
    by auto
  have "?f i \<noteq> Inr AuthorizationMissing" for i
    by (simp add: step_status_def check_keypair_authorization_def split: option.splits sum.splits)
  then have "with_status ?f AuthorizationMissing ids = []"
    by (simp add: with_status_def)
  with st show ?thesis by (simp add: add_statuses_empty)
qed

text \<open>
  Claim C8. In every answer that \<open>request_decryption_authorization\<close> returns, the
  lengths of the four lists add up to the number of identifiers, the four lists together
  hold the identifiers of the input with their multiplicities, every identifier of the
  input is in exactly one of the four lists, \<open>has_errors\<close> holds exactly when the
  list \<open>accepted\<close> is shorter than the input, and the message is
  \<open>Decryption request denied\<close> when \<open>has_errors\<close> holds and
  \<open>Decryption request accepted\<close> otherwise.
\<close>

theorem request_decryption_authorization_partition:
  assumes "request_decryption_authorization chk pr ks ids request_message passphrases
             = (Inr r, ks')"
  shows "length (missing_private_key (keypair_statuses r))
           + length (authorization_missing (keypair_statuses r))
           + length (missing_passphrase (keypair_statuses r))
           + length (accepted (keypair_statuses r)) = length ids
     \<and> mset (missing_private_key (keypair_statuses r) @ authorization_missing (keypair_statuses r)
           @ missing_passphrase (keypair_statuses r) @ accepted (keypair_statuses r)) = mset ids
     \<and> (\<forall>i\<in>set ids.
           length (filter (\<lambda>l. i \<in> set l)
             [missing_private_key (keypair_statuses r), authorization_missing (keypair_statuses r),
              missing_passphrase (keypair_statuses r), accepted (keypair_statuses r)]) = 1)
     \<and> has_errors r = (length (accepted (keypair_statuses r)) < length ids)
     \<and> response_message r =
           (if has_errors r then ''Decryption request denied''
            else ''Decryption request accepted'')"
proof -
  let ?pps = "case passphrases of None \<Rightarrow> [] | Some ps \<Rightarrow> ps"
  let ?f = "step_status chk pr ks ?pps"
  from request_decryption_authorization_success [OF assms]
  have ne: "ids \<noteq> []" and all: "\<forall>i\<in>set ids. \<not> isl (?f i)" by simp_all
  from request_decryption_authorization_returns [OF ne all, of request_message] assms
  have r: "r = \<lparr>response_message =
            (if length (with_status ?f Accepted ids) < length ids
             then ''Decryption request denied'' else ''Decryption request accepted''),
          has_errors = (length (with_status ?f Accepted ids) < length ids),
          keypair_statuses = add_statuses ?f ids empty_statuses\<rparr>"
    by simp
  have st: "keypair_statuses r = add_statuses ?f ids empty_statuses"
    by (subst r) simp
  have he: "has_errors r = (length (with_status ?f Accepted ids) < length ids)"
    by (subst r) simp
  have rm: "response_message r = (if length (with_status ?f Accepted ids) < length ids
             then ''Decryption request denied'' else ''Decryption request accepted'')"
    by (subst r) simp
  have p1: "length (missing_private_key (keypair_statuses r))
           + length (authorization_missing (keypair_statuses r))
           + length (missing_passphrase (keypair_statuses r))
           + length (accepted (keypair_statuses r)) = length ids"
    using with_status_length [OF all] by (simp add: st add_statuses_empty)
  have p2: "mset (missing_private_key (keypair_statuses r) @ authorization_missing (keypair_statuses r)
           @ missing_passphrase (keypair_statuses r) @ accepted (keypair_statuses r)) = mset ids"
    using with_status_mset [OF all] by (simp add: st add_statuses_empty)
  have p3: "\<forall>i\<in>set ids.
           length (filter (\<lambda>l. i \<in> set l)
             [missing_private_key (keypair_statuses r), authorization_missing (keypair_statuses r),
              missing_passphrase (keypair_statuses r), accepted (keypair_statuses r)]) = 1"
  proof
    fix i assume i: "i \<in> set ids"
    with all have "\<not> isl (?f i)" by blast
    from with_status_exactly_one [of i ids ?f, OF i this]
    show "length (filter (\<lambda>l. i \<in> set l)
             [missing_private_key (keypair_statuses r), authorization_missing (keypair_statuses r),
              missing_passphrase (keypair_statuses r), accepted (keypair_statuses r)]) = 1"
      by (simp only: st add_statuses_empty keypair_statuses.simps)
  qed
  have p4: "has_errors r = (length (accepted (keypair_statuses r)) < length ids)"
    by (simp add: he st add_statuses_empty)
  have p5: "response_message r =
           (if has_errors r then ''Decryption request denied''
            else ''Decryption request accepted'')"
    by (simp add: he rm)
  from p1 p2 p3 p4 p5 show ?thesis by blast
qed





lemma example_request_base:
  "fst (request_decryption_authorization check_keypair_authorization example_primitives
     example_key_storage example_identifiers ''for the court'' None) =
   Inr \<lparr>response_message = ''Decryption request denied'', has_errors = True,
        keypair_statuses =
          \<lparr>missing_private_key = [\<lparr>keychain_uid = 3, key_algo = ''RSA_OAEP''\<rparr>,
                                  \<lparr>keychain_uid = 4, key_algo = ''RSA_OAEP''\<rparr>],
           authorization_missing = [],
           missing_passphrase = [\<lparr>keychain_uid = 2, key_algo = ''RSA_OAEP''\<rparr>],
           accepted = [\<lparr>keychain_uid = 1, key_algo = ''RSA_OAEP''\<rparr>]\<rparr>\<rparr>"
  by (simp add: request_decryption_authorization_def example_identifiers_def
      check_keypair_authorization_def
      example_key_storage_def example_primitives_def authorization_loop.simps
      get_private_key_def record_call_def checked_private_key_def
      decrypt_private_key_pem_with_passphrases_def Let_def)

text \<open>The same request to the base class: the UUID 4 is now a missing private key.\<close>

theorem request_decryption_authorization_base_authorizes_witness:
  "\<exists>r. fst (request_decryption_authorization check_keypair_authorization example_primitives
          example_key_storage example_identifiers ''for the court'' None) = Inr r
      \<and> accepted (keypair_statuses r) = [\<lparr>keychain_uid = 1, key_algo = ''RSA_OAEP''\<rparr>]
      \<and> authorization_missing (keypair_statuses r) = []"
proof -
  obtain r ks' where e:
    "request_decryption_authorization check_keypair_authorization example_primitives
       example_key_storage example_identifiers ''for the court'' None = (Inr r, ks')"
    and a: "accepted (keypair_statuses r) = [\<lparr>keychain_uid = 1, key_algo = ''RSA_OAEP''\<rparr>]"
    using example_request_base
    by (cases "request_decryption_authorization check_keypair_authorization example_primitives
       example_key_storage example_identifiers ''for the court'' None") auto
  from request_decryption_authorization_base_authorizes [OF e] e a show ?thesis
    by auto
qed

text \<open>The partition on the same four identifiers.\<close>

theorem request_decryption_authorization_partition_witness:
  "\<exists>r. fst (request_decryption_authorization example_check example_primitives
          example_key_storage example_identifiers ''for the court'' (Some [''wrong''])) = Inr r
      \<and> length (missing_private_key (keypair_statuses r))
           + length (authorization_missing (keypair_statuses r))
           + length (missing_passphrase (keypair_statuses r))
           + length (accepted (keypair_statuses r)) = 4
      \<and> has_errors r
      \<and> response_message r = ''Decryption request denied''"
proof -
  obtain r ks' where e:
    "request_decryption_authorization example_check example_primitives
       example_key_storage example_identifiers ''for the court'' (Some [''wrong'']) = (Inr r, ks')"
    using example_request
    by (cases "request_decryption_authorization example_check example_primitives
       example_key_storage example_identifiers ''for the court'' (Some [''wrong''])") auto
  have a: "length (accepted (keypair_statuses r)) = 1"
    using example_request e by auto
  from request_decryption_authorization_partition [OF e] e a show ?thesis
    by (auto simp add: example_identifiers_def)
qed

section \<open>Decryption with a private key\<close>

lemma get_public_key_eq:
  "get_public_key ks u a =
     ((case keypairs ks (u, a) of None \<Rightarrow> Inl KeyDoesNotExist | Some kp \<Rightarrow> Inr (public_key kp)),
      record_call (GetPublicKey u a) ks)"
  by (simp add: get_public_key_def Let_def split: option.splits)

lemma decryption_error_text:
  "decrypt_private_key_pem_with_passphrases pr pem a pps =
     (case find (\<lambda>c. load_asymmetric_key_from_pem_bytestring pr pem a c \<noteq> Inl KeyLoadingError)
             (None # map Some pps) of
        None \<Rightarrow>
          Inl (DecryptionError
            (''Could not decrypt private key'' @ '' of type '' @ a @
             '' (passphrases provided: '' @ str_nat (length pps) @ '')''))
      | Some c \<Rightarrow> load_asymmetric_key_from_pem_bytestring pr pem a c)"
  unfolding decrypt_private_key_pem_with_passphrases_def try_passphrases_find
  by (simp split: option.splits)

lemma upper_RSA_OAEP: "upper ''RSA_OAEP'' = ''RSA_OAEP''"
  by (simp add: upper_def upper_char_def)

lemma find_first:
  assumes "xs = pre @ c # post" and "list_all (\<lambda>x. \<not> P x) pre" and "P c"
  shows "find P xs = Some c"
  using assms by (induction pre arbitrary: xs) auto

lemma find_none: "list_all (\<lambda>x. \<not> P x) xs \<Longrightarrow> find P xs = None"
  by (induction xs) auto

text \<open>
  Claim C1. When the private key of \<open>(kuid, RSA_OAEP)\<close> is stored,
  \<open>decrypt_with_private_key\<close> goes through the candidates \<open>None\<close>, then the
  passphrases in the order given, and stops at the first one on which the loader does
  anything but raise \<open>KeyLoadingError\<close>: with no such candidate it raises
  \<open>DecryptionError\<close> with a text that starts with \<open>Could not decrypt private key\<close>,
  and with a key object it returns what the RSA-OAEP decryption of the cipher dictionary
  with this key returns. So the result is the decryption with the key of the first
  candidate that loads the private key, when the candidates before it fail to load it;
  an unprotected private key (one that \<open>None\<close> loads) is used whatever the
  passphrases are; and when no candidate loads the key, \<open>DecryptionError\<close> is raised.
\<close>

theorem decrypt_with_private_key_candidates:
  assumes stored: "keypairs ks (kuid, ''RSA_OAEP'') = Some kp"
  shows
    "fst (decrypt_with_private_key pr ks kuid ''RSA_OAEP'' cipherdict passphrases) =
       (case find (\<lambda>c. load_asymmetric_key_from_pem_bytestring pr (private_key kp) ''RSA_OAEP'' c
                      \<noteq> Inl KeyLoadingError)
               (None # map Some (case passphrases of None \<Rightarrow> [] | Some ps \<Rightarrow> ps)) of
          None \<Rightarrow>
            Inl (DecryptionError
              (''Could not decrypt private key'' @ '' of type RSA_OAEP (passphrases provided: '' @
               str_nat (length (case passphrases of None \<Rightarrow> [] | Some ps \<Rightarrow> ps)) @ '')''))
        | Some c \<Rightarrow>
            (case load_asymmetric_key_from_pem_bytestring pr (private_key kp) ''RSA_OAEP'' c of
               Inl e \<Rightarrow> Inl e
             | Inr k \<Rightarrow> decrypt_via_rsa_oaep pr cipherdict k))
     \<and> (\<forall>pre c post k.
          None # map Some (case passphrases of None \<Rightarrow> [] | Some ps \<Rightarrow> ps) = pre @ c # post
          \<and> list_all (\<lambda>c'. load_asymmetric_key_from_pem_bytestring pr (private_key kp)
                              ''RSA_OAEP'' c' = Inl KeyLoadingError) pre
          \<and> load_asymmetric_key_from_pem_bytestring pr (private_key kp) ''RSA_OAEP'' c = Inr k
          \<longrightarrow> fst (decrypt_with_private_key pr ks kuid ''RSA_OAEP'' cipherdict passphrases)
                = decrypt_via_rsa_oaep pr cipherdict k)
     \<and> (\<forall>k. load_asymmetric_key_from_pem_bytestring pr (private_key kp) ''RSA_OAEP'' None = Inr k
          \<longrightarrow> fst (decrypt_with_private_key pr ks kuid ''RSA_OAEP'' cipherdict passphrases)
                = decrypt_via_rsa_oaep pr cipherdict k)
     \<and> (list_all (\<lambda>c. load_asymmetric_key_from_pem_bytestring pr (private_key kp)
                          ''RSA_OAEP'' c = Inl KeyLoadingError)
            (None # map Some (case passphrases of None \<Rightarrow> [] | Some ps \<Rightarrow> ps))
          \<longrightarrow> (\<exists>rest. fst (decrypt_with_private_key pr ks kuid ''RSA_OAEP'' cipherdict passphrases)
                = Inl (DecryptionError (''Could not decrypt private key'' @ rest))))"
proof -
  let ?pps = "case passphrases of None \<Rightarrow> [] | Some ps \<Rightarrow> ps"
  let ?cs = "None # map Some ?pps"
  let ?load = "load_asymmetric_key_from_pem_bytestring pr (private_key kp) ''RSA_OAEP''"
  let ?P = "\<lambda>c. ?load c \<noteq> Inl KeyLoadingError"
  let ?res = "fst (decrypt_with_private_key pr ks kuid ''RSA_OAEP'' cipherdict passphrases)"
  have res: "?res =
      (case decrypt_private_key_pem_with_passphrases pr (private_key kp) ''RSA_OAEP'' ?pps of
         Inl e \<Rightarrow> Inl e | Inr k \<Rightarrow> decrypt_via_rsa_oaep pr cipherdict k)"
    using stored
    by (simp add: decrypt_with_private_key_def upper_RSA_OAEP get_private_key_eq Let_def
        split: sum.splits)
  have main: "?res =
       (case find ?P ?cs of
          None \<Rightarrow>
            Inl (DecryptionError
              (''Could not decrypt private key'' @ '' of type RSA_OAEP (passphrases provided: '' @
               str_nat (length ?pps) @ '')''))
        | Some c \<Rightarrow> (case ?load c of Inl e \<Rightarrow> Inl e | Inr k \<Rightarrow> decrypt_via_rsa_oaep pr cipherdict k))"
    unfolding res decryption_error_text
    by (cases "find ?P ?cs") simp_all
  have first: "?res = decrypt_via_rsa_oaep pr cipherdict k"
    if "?cs = pre @ c # post"
      and "list_all (\<lambda>c'. ?load c' = Inl KeyLoadingError) pre"
      and "?load c = Inr k" for pre c post k
  proof -
    from that(2) have "list_all (\<lambda>x. \<not> ?P x) pre" by simp
    moreover from that(3) have "?P c" by simp
    ultimately have "find ?P ?cs = Some c"
      using find_first [OF that(1), of ?P] by blast
    with that(3) show ?thesis unfolding main by simp
  qed
  have unencrypted: "?res = decrypt_via_rsa_oaep pr cipherdict k" if "?load None = Inr k" for k
    using first [of "[]" None "map Some ?pps" k] that by simp
  have none: "\<exists>rest. ?res = Inl (DecryptionError (''Could not decrypt private key'' @ rest))"
    if "list_all (\<lambda>c. ?load c = Inl KeyLoadingError) ?cs"
  proof -
    from that have "list_all (\<lambda>x. \<not> ?P x) ?cs" by simp
    then have "find ?P ?cs = None" by (rule find_none)
    then show ?thesis unfolding main by simp
  qed
  from main first unencrypted none show ?thesis by blast
qed

lemma keypair_eta [simp]:
  "\<lparr>public_key = public_key kp, private_key = private_key kp\<rparr> = (kp :: keypair)"
  by (cases kp) simp

lemma str_nat_1: "str_nat (Suc 0) = ''1''"
  by code_simp

lemma example_stored_1:
  "keypairs example_key_storage (1, ''RSA_OAEP'')
     = Some \<lparr>public_key = ''PUB1'', private_key = ''PRIV1''\<rparr>"
  by (simp add: example_key_storage_def)

lemma example_stored_2:
  "keypairs example_key_storage (2, ''RSA_OAEP'')
     = Some \<lparr>public_key = ''PUB2'', private_key = ''LOCKED''\<rparr>"
  by (simp add: example_key_storage_def)

text \<open>
  An unprotected key with a wrong passphrase, a protected key with a wrong passphrase,
  and a protected key whose passphrase is the second one given.
\<close>

theorem decrypt_with_private_key_candidates_witness:
  "fst (decrypt_with_private_key example_primitives example_key_storage 1 ''RSA_OAEP''
          ''cipher'' (Some [''wrong''])) = Inr ''PRIV1cipher''
   \<and> fst (decrypt_with_private_key example_primitives example_key_storage 2 ''RSA_OAEP''
          ''cipher'' (Some [''wrong''])) =
       Inl (DecryptionError
         ''Could not decrypt private key of type RSA_OAEP (passphrases provided: 1)'')
   \<and> fst (decrypt_with_private_key example_primitives example_key_storage 2 ''RSA_OAEP''
          ''cipher'' (Some [''wrong'', ''secret''])) = Inr ''KEYcipher''"
proof -
  have a: "fst (decrypt_with_private_key example_primitives example_key_storage 1 ''RSA_OAEP''
          ''cipher'' (Some [''wrong''])) = Inr ''PRIV1cipher''"
    using decrypt_with_private_key_candidates
      [OF example_stored_1, of example_primitives "''cipher''" "Some [''wrong'']", THEN conjunct1]
    by (simp add: example_primitives_def)
  have b: "fst (decrypt_with_private_key example_primitives example_key_storage 2 ''RSA_OAEP''
          ''cipher'' (Some [''wrong''])) =
       Inl (DecryptionError
         ''Could not decrypt private key of type RSA_OAEP (passphrases provided: 1)'')"
    using decrypt_with_private_key_candidates
      [OF example_stored_2, of example_primitives "''cipher''" "Some [''wrong'']", THEN conjunct1]
    by (simp add: example_primitives_def str_nat_1)
  have c: "fst (decrypt_with_private_key example_primitives example_key_storage 2 ''RSA_OAEP''
          ''cipher'' (Some [''wrong'', ''secret''])) = Inr ''KEYcipher''"
    using decrypt_with_private_key_candidates
      [OF example_stored_2, of example_primitives "''cipher''" "Some [''wrong'', ''secret'']",
        THEN conjunct1]
    by (simp add: example_primitives_def)
  from a b c show ?thesis by blast
qed

section \<open>Fetching a public key\<close>

lemma attach_free_keypair_to_uuid_eq:
  "attach_free_keypair_to_uuid ks u a =
     (case free_keypairs ks a of
        [] \<Rightarrow> (Inl KeyDoesNotExist, record_call (AttachFreeKeypair u a) ks)
      | kp # rest \<Rightarrow>
          (case keypairs ks (u, a) of
             Some old \<Rightarrow> (Inl KeyAlreadyExists, record_call (AttachFreeKeypair u a) ks)
           | None \<Rightarrow>
               (Inr (),
                (record_call (AttachFreeKeypair u a) ks)
                  \<lparr>keypairs := (keypairs ks)((u, a) \<mapsto> kp),
                   free_keypairs := (free_keypairs ks)(a := rest)\<rparr>)))"
  by (simp add: attach_free_keypair_to_uuid_def Let_def split: list.splits option.splits)

lemma set_keys_eq:
  "set_keys ks u a pub priv =
     (case keypairs ks (u, a) of
        Some kp \<Rightarrow> (Inl KeyAlreadyExists, record_call (SetKeys u a) ks)
      | None \<Rightarrow>
          (Inr (),
           (record_call (SetKeys u a) ks)
             \<lparr>keypairs := (keypairs ks)((u, a) \<mapsto> \<lparr>public_key = pub, private_key = priv\<rparr>)\<rparr>))"
  by (simp add: set_keys_def Let_def split: option.splits)

lemma ensure_keypair_exists_present:
  assumes "keypairs ks (u, a) = Some kp"
  shows "ensure_keypair_exists pr ks u a = (Inr (), record_call (GetPublicKey u a) ks)"
  using assms by (simp add: ensure_keypair_exists_def get_public_key_eq)

lemma ensure_keypair_exists_attaches:
  assumes "keypairs ks (u, a) = None" and "free_keypairs ks a = kp # rest"
  shows "ensure_keypair_exists pr ks u a =
     (Inr (),
      ks\<lparr>keypairs := (keypairs ks)((u, a) \<mapsto> kp),
         free_keypairs := (free_keypairs ks)(a := rest),
         calls := calls ks @ [GetPublicKey u a, AttachFreeKeypair u a]\<rparr>)"
  using assms
  by (simp add: ensure_keypair_exists_def get_public_key_eq attach_free_keypair_to_uuid_eq
      record_call_def)

lemma ensure_keypair_exists_generates:
  assumes "keypairs ks (u, a) = None" and "free_keypairs ks a = []"
    and "generate_keypair pr a None = Inr kp"
  shows "ensure_keypair_exists pr ks u a =
     (Inr (),
      ks\<lparr>keypairs := (keypairs ks)((u, a) \<mapsto> kp),
         calls := calls ks @ [GetPublicKey u a, AttachFreeKeypair u a, SetKeys u a]\<rparr>)"
  using assms
  by (simp add: ensure_keypair_exists_def get_public_key_eq attach_free_keypair_to_uuid_eq
      generate_keypair_for_storage_def set_keys_eq record_call_def)

lemma ensure_keypair_exists_generation_fails:
  assumes "keypairs ks (u, a) = None" and "free_keypairs ks a = []"
    and "generate_keypair pr a None = Inl e"
  shows "ensure_keypair_exists pr ks u a =
     (Inl e, ks\<lparr>calls := calls ks @ [GetPublicKey u a, AttachFreeKeypair u a]\<rparr>)"
  using assms
  by (simp add: ensure_keypair_exists_def get_public_key_eq attach_free_keypair_to_uuid_eq
      generate_keypair_for_storage_def set_keys_eq record_call_def)

text \<open>
  Claim C2. \<open>fetch_public_key\<close> of the base class, for every UUID and algorithm.
  With \<open>must_exist\<close> true it only reads the public key: the stored key is returned or
  \<open>KeyDoesNotExist\<close> is raised, and nothing is created. With \<open>must_exist\<close> false
  it returns the stored public key when there is one; otherwise it attaches a free keypair
  of the algorithm when the pool has one, and only when the pool is empty (the attachment
  raises \<open>KeyDoesNotExist\<close>) it generates a keypair and stores it; then it returns the
  public key of the keypair now stored. The calls made to the key storage are the last
  field of each final state.
\<close>

theorem fetch_public_key_ensures_keypair:
  "fetch_public_key EscrowApi pr ks u a True =
      ((case keypairs ks (u, a) of
          None \<Rightarrow> Inl KeyDoesNotExist | Some kp \<Rightarrow> Inr (public_key kp)),
       ks\<lparr>calls := calls ks @ [GetPublicKey u a]\<rparr>)
   \<and> (\<forall>kp. keypairs ks (u, a) = Some kp \<longrightarrow>
          fetch_public_key EscrowApi pr ks u a False =
            (Inr (public_key kp), ks\<lparr>calls := calls ks @ [GetPublicKey u a, GetPublicKey u a]\<rparr>))
   \<and> (\<forall>kp rest. keypairs ks (u, a) = None \<and> free_keypairs ks a = kp # rest \<longrightarrow>
          fetch_public_key EscrowApi pr ks u a False =
            (Inr (public_key kp),
             ks\<lparr>keypairs := (keypairs ks)((u, a) \<mapsto> kp),
                free_keypairs := (free_keypairs ks)(a := rest),
                calls := calls ks @
                  [GetPublicKey u a, AttachFreeKeypair u a, GetPublicKey u a]\<rparr>))
   \<and> (\<forall>kp. keypairs ks (u, a) = None \<and> free_keypairs ks a = []
            \<and> generate_keypair pr a None = Inr kp \<longrightarrow>
          fetch_public_key EscrowApi pr ks u a False =
            (Inr (public_key kp),
             ks\<lparr>keypairs := (keypairs ks)((u, a) \<mapsto> kp),
                calls := calls ks @
                  [GetPublicKey u a, AttachFreeKeypair u a, SetKeys u a, GetPublicKey u a]\<rparr>))
   \<and> (\<forall>e. keypairs ks (u, a) = None \<and> free_keypairs ks a = []
            \<and> generate_keypair pr a None = Inl e \<longrightarrow>
          fetch_public_key EscrowApi pr ks u a False =
            (Inl e, ks\<lparr>calls := calls ks @ [GetPublicKey u a, AttachFreeKeypair u a]\<rparr>))"
proof -
  have p1: "fetch_public_key EscrowApi pr ks u a True =
      ((case keypairs ks (u, a) of
          None \<Rightarrow> Inl KeyDoesNotExist | Some kp \<Rightarrow> Inr (public_key kp)),
       ks\<lparr>calls := calls ks @ [GetPublicKey u a]\<rparr>)"
    by (simp add: fetch_public_key_def get_public_key_eq record_call_def)
  have p2: "fetch_public_key EscrowApi pr ks u a False =
            (Inr (public_key kp), ks\<lparr>calls := calls ks @ [GetPublicKey u a, GetPublicKey u a]\<rparr>)"
    if "keypairs ks (u, a) = Some kp" for kp
    using that
    by (simp add: fetch_public_key_def ensure_keypair_exists_present get_public_key_eq
        record_call_def)
  have p3: "fetch_public_key EscrowApi pr ks u a False =
            (Inr (public_key kp),
             ks\<lparr>keypairs := (keypairs ks)((u, a) \<mapsto> kp),
                free_keypairs := (free_keypairs ks)(a := rest),
                calls := calls ks @
                  [GetPublicKey u a, AttachFreeKeypair u a, GetPublicKey u a]\<rparr>)"
    if "keypairs ks (u, a) = None" and "free_keypairs ks a = kp # rest" for kp rest
    by (simp add: fetch_public_key_def ensure_keypair_exists_attaches [OF that]
        get_public_key_eq record_call_def)
  have p4: "fetch_public_key EscrowApi pr ks u a False =
            (Inr (public_key kp),
             ks\<lparr>keypairs := (keypairs ks)((u, a) \<mapsto> kp),
                calls := calls ks @
                  [GetPublicKey u a, AttachFreeKeypair u a, SetKeys u a, GetPublicKey u a]\<rparr>)"
    if "keypairs ks (u, a) = None" and "free_keypairs ks a = []"
      and "generate_keypair pr a None = Inr kp" for kp
    by (simp add: fetch_public_key_def ensure_keypair_exists_generates [OF that]
        get_public_key_eq record_call_def)
  have p5: "fetch_public_key EscrowApi pr ks u a False =
            (Inl e, ks\<lparr>calls := calls ks @ [GetPublicKey u a, AttachFreeKeypair u a]\<rparr>)"
    if "keypairs ks (u, a) = None" and "free_keypairs ks a = []"
      and "generate_keypair pr a None = Inl e" for e
    by (simp add: fetch_public_key_def ensure_keypair_exists_generation_fails [OF that])
  from p1 p2 p3 p4 p5 show ?thesis by blast
qed

lemma readonly_ensure_keypair_exists_eq:
  "readonly_ensure_keypair_exists ks u a =
     ((case keypairs ks (u, a) of None \<Rightarrow> Inl KeyDoesNotExist | Some kp \<Rightarrow> Inr ()),
      record_call (GetPublicKey u a) ks)"
  by (simp add: readonly_ensure_keypair_exists_def get_public_key_eq split: option.splits)

text \<open>
  Claim C6. \<open>fetch_public_key\<close> of \<open>ReadonlyEscrowApi\<close>, whatever
  \<open>must_exist\<close> is: when the keypair is absent it raises \<open>KeyDoesNotExist\<close>; in
  every case the keypairs and the free keypairs of the key storage are unchanged, and the
  only calls it makes to the key storage read the public key.
\<close>

theorem readonly_fetch_public_key_never_creates:
  "(keypairs ks (u, a) = None \<longrightarrow>
      fetch_public_key ReadonlyEscrowApi pr ks u a must_exist =
        (Inl KeyDoesNotExist, ks\<lparr>calls := calls ks @ [GetPublicKey u a]\<rparr>))
   \<and> keypairs (snd (fetch_public_key ReadonlyEscrowApi pr ks u a must_exist)) = keypairs ks
   \<and> free_keypairs (snd (fetch_public_key ReadonlyEscrowApi pr ks u a must_exist))
        = free_keypairs ks
   \<and> set (calls (snd (fetch_public_key ReadonlyEscrowApi pr ks u a must_exist)))
        \<subseteq> set (calls ks) \<union> {GetPublicKey u a}"
proof (cases "keypairs ks (u, a)")
  case None
  then show ?thesis
    by (cases must_exist)
      (simp_all add: fetch_public_key_def readonly_ensure_keypair_exists_eq get_public_key_eq
        record_call_def)
next
  case (Some kp)
  then show ?thesis
    by (cases must_exist)
      (simp_all add: fetch_public_key_def readonly_ensure_keypair_exists_eq get_public_key_eq
        record_call_def)
qed

section \<open>Creation of the signature keypair\<close>

text \<open>
  Claim C10. For a message of at most 128 bytes and a UUID with no keypair of the
  signature algorithm, \<open>get_message_signature\<close> of the base class attaches a free
  keypair when the pool has one and generates a keypair otherwise, and the result is the
  signature made with the private key of this keypair (loaded without passphrase), or the
  exception of the loader or of the signature function: \<open>KeyDoesNotExist\<close> is not
  raised by the key storage.
\<close>

theorem get_message_signature_creates_keypair:
  assumes size: "length message \<le> 128" and absent: "keypairs ks (u, a) = None"
  shows
    "(\<forall>kp rest. free_keypairs ks a = kp # rest \<longrightarrow>
        get_message_signature EscrowApi pr ks u message a =
          ((case load_asymmetric_key_from_pem_bytestring pr (private_key kp) a None of
              Inl e \<Rightarrow> Inl e
            | Inr key \<Rightarrow> sign_message pr message a key),
           ks\<lparr>keypairs := (keypairs ks)((u, a) \<mapsto> kp),
              free_keypairs := (free_keypairs ks)(a := rest),
              calls := calls ks @
                [GetPublicKey u a, AttachFreeKeypair u a, GetPrivateKey u a]\<rparr>))
     \<and> (\<forall>kp. free_keypairs ks a = [] \<and> generate_keypair pr a None = Inr kp \<longrightarrow>
        get_message_signature EscrowApi pr ks u message a =
          ((case load_asymmetric_key_from_pem_bytestring pr (private_key kp) a None of
              Inl e \<Rightarrow> Inl e
            | Inr key \<Rightarrow> sign_message pr message a key),
           ks\<lparr>keypairs := (keypairs ks)((u, a) \<mapsto> kp),
              calls := calls ks @
                [GetPublicKey u a, AttachFreeKeypair u a, SetKeys u a, GetPrivateKey u a]\<rparr>))"
proof -
  have p1: "get_message_signature EscrowApi pr ks u message a =
          ((case load_asymmetric_key_from_pem_bytestring pr (private_key kp) a None of
              Inl e \<Rightarrow> Inl e
            | Inr key \<Rightarrow> sign_message pr message a key),
           ks\<lparr>keypairs := (keypairs ks)((u, a) \<mapsto> kp),
              free_keypairs := (free_keypairs ks)(a := rest),
              calls := calls ks @
                [GetPublicKey u a, AttachFreeKeypair u a, GetPrivateKey u a]\<rparr>)"
    if "free_keypairs ks a = kp # rest" for kp rest
    using size
    by (simp add: get_message_signature_def MAX_PAYLOAD_LENGTH_FOR_SIGNATURE_def
        ensure_keypair_exists_attaches [OF absent that] get_private_key_eq record_call_def
        split: sum.splits)
  have p2: "get_message_signature EscrowApi pr ks u message a =
          ((case load_asymmetric_key_from_pem_bytestring pr (private_key kp) a None of
              Inl e \<Rightarrow> Inl e
            | Inr key \<Rightarrow> sign_message pr message a key),
           ks\<lparr>keypairs := (keypairs ks)((u, a) \<mapsto> kp),
              calls := calls ks @
                [GetPublicKey u a, AttachFreeKeypair u a, SetKeys u a, GetPrivateKey u a]\<rparr>)"
    if "free_keypairs ks a = []" and "generate_keypair pr a None = Inr kp" for kp
    using size
    by (simp add: get_message_signature_def MAX_PAYLOAD_LENGTH_FOR_SIGNATURE_def
        ensure_keypair_exists_generates [OF absent that] get_private_key_eq record_call_def
        split: sum.splits)
  from p1 p2 show ?thesis by blast
qed

lemma example_absent_7:
  "keypairs example_key_storage (7, a) = None"
  by (simp add: example_key_storage_def)

lemma example_free_RSA_PSS:
  "free_keypairs example_key_storage ''RSA_PSS''
     = [\<lparr>public_key = ''PUB5'', private_key = ''PRIV5''\<rparr>]"
  by (simp add: example_key_storage_def)

lemma example_free_RSA_OAEP: "free_keypairs example_key_storage ''RSA_OAEP'' = []"
  by (simp add: example_key_storage_def)

lemma example_generate:
  "generate_keypair example_primitives ''RSA_OAEP'' None
     = Inr \<lparr>public_key = ''PUB:RSA_OAEP'', private_key = ''PRIV:RSA_OAEP''\<rparr>"
  by (simp add: example_primitives_def)

text \<open>
  The four cases on the example: a key that must exist and does not, a stored key, a
  free keypair to attach, and a keypair to generate.
\<close>

theorem fetch_public_key_ensures_keypair_witness:
  "fst (fetch_public_key EscrowApi example_primitives example_key_storage 7 ''RSA_OAEP'' True)
     = Inl KeyDoesNotExist
   \<and> fst (fetch_public_key EscrowApi example_primitives example_key_storage 1 ''RSA_OAEP'' False)
     = Inr ''PUB1''
   \<and> fst (fetch_public_key EscrowApi example_primitives example_key_storage 7 ''RSA_PSS'' False)
     = Inr ''PUB5''
   \<and> fst (fetch_public_key EscrowApi example_primitives example_key_storage 7 ''RSA_OAEP'' False)
     = Inr ''PUB:RSA_OAEP''"
proof -
  note t = fetch_public_key_ensures_keypair [of example_primitives example_key_storage]
  have a: "fst (fetch_public_key EscrowApi example_primitives example_key_storage
                  7 ''RSA_OAEP'' True) = Inl KeyDoesNotExist"
    using t [of 7 "''RSA_OAEP''", THEN conjunct1] by (simp add: example_absent_7)
  have b: "fst (fetch_public_key EscrowApi example_primitives example_key_storage
                  1 ''RSA_OAEP'' False) = Inr ''PUB1''"
    using t [of 1 "''RSA_OAEP''", THEN conjunct2, THEN conjunct1] example_stored_1 by simp
  have c: "fst (fetch_public_key EscrowApi example_primitives example_key_storage
                  7 ''RSA_PSS'' False) = Inr ''PUB5''"
    using t [of 7 "''RSA_PSS''", THEN conjunct2, THEN conjunct2, THEN conjunct1]
      example_absent_7 example_free_RSA_PSS by simp
  have d: "fst (fetch_public_key EscrowApi example_primitives example_key_storage
                  7 ''RSA_OAEP'' False) = Inr ''PUB:RSA_OAEP''"
    using t [of 7 "''RSA_OAEP''", THEN conjunct2, THEN conjunct2, THEN conjunct2, THEN conjunct1]
      example_absent_7 example_free_RSA_OAEP example_generate by simp
  from a b c d show ?thesis by blast
qed

text \<open>
  An absent keypair whose algorithm has a free keypair: the read-only class raises for
  both values of \<open>must_exist\<close> and leaves the free keypair in the pool.
\<close>

theorem readonly_fetch_public_key_never_creates_witness:
  "fst (fetch_public_key ReadonlyEscrowApi example_primitives example_key_storage
          7 ''RSA_PSS'' False) = Inl KeyDoesNotExist
   \<and> fst (fetch_public_key ReadonlyEscrowApi example_primitives example_key_storage
          7 ''RSA_PSS'' True) = Inl KeyDoesNotExist
   \<and> free_keypairs (snd (fetch_public_key ReadonlyEscrowApi example_primitives
          example_key_storage 7 ''RSA_PSS'' False)) ''RSA_PSS''
       = [\<lparr>public_key = ''PUB5'', private_key = ''PRIV5''\<rparr>]"
proof -
  note t = readonly_fetch_public_key_never_creates
    [of example_key_storage 7 "''RSA_PSS''" example_primitives]
  have a: "fst (fetch_public_key ReadonlyEscrowApi example_primitives example_key_storage
          7 ''RSA_PSS'' False) = Inl KeyDoesNotExist"
    using t [of False, THEN conjunct1] example_absent_7 by simp
  have b: "fst (fetch_public_key ReadonlyEscrowApi example_primitives example_key_storage
          7 ''RSA_PSS'' True) = Inl KeyDoesNotExist"
    using t [of True, THEN conjunct1] example_absent_7 by simp
  have c: "free_keypairs (snd (fetch_public_key ReadonlyEscrowApi example_primitives
          example_key_storage 7 ''RSA_PSS'' False)) ''RSA_PSS''
       = [\<lparr>public_key = ''PUB5'', private_key = ''PRIV5''\<rparr>]"
    using t [of False, THEN conjunct2, THEN conjunct2, THEN conjunct1] example_free_RSA_PSS
    by simp
  from a b c show ?thesis by blast
qed

text \<open>A signature with an attached free keypair and one with a generated keypair.\<close>

theorem get_message_signature_creates_keypair_witness:
  "fst (get_message_signature EscrowApi example_primitives example_key_storage
          7 ''digest'' ''RSA_PSS'') = Inr ''PRIV5digest''
   \<and> fst (get_message_signature EscrowApi example_primitives example_key_storage
          7 ''digest'' ''RSA_OAEP'') = Inr ''PRIV:RSA_OAEPdigest''"
proof -
  have size: "length ''digest'' \<le> 128" by simp
  note t = get_message_signature_creates_keypair [OF size example_absent_7, of _ example_primitives]
  have a: "fst (get_message_signature EscrowApi example_primitives example_key_storage
          7 ''digest'' ''RSA_PSS'') = Inr ''PRIV5digest''"
    using t [of "''RSA_PSS''", THEN conjunct1] example_free_RSA_PSS
    by (simp add: example_primitives_def)
  have b: "fst (get_message_signature EscrowApi example_primitives example_key_storage
          7 ''digest'' ''RSA_OAEP'') = Inr ''PRIV:RSA_OAEPdigest''"
    using t [of "''RSA_OAEP''", THEN conjunct2] example_free_RSA_OAEP example_generate
    by (simp add: example_primitives_def)
  from a b show ?thesis by blast
qed

section \<open>Generation of free keypairs\<close>

lemma free_keys_counts_eq:
  "free_keys_counts ks algos =
     (map (\<lambda>a. (length (free_keypairs ks a), a)) algos,
      ks\<lparr>calls := calls ks @ map GetFreeKeypairsCount algos\<rparr>)"
proof (induction algos arbitrary: ks)
  case Nil
  show ?case by simp
next
  case (Cons a algos)
  show ?case
    by (simp add: get_free_keypairs_count_def Cons.IH record_call_def)
qed

lemma min_from_least:
  "min_from m xs \<in> set (m # xs) \<and> (\<forall>x\<in>set (m # xs). min_from m xs \<le> x)"
proof (induction xs arbitrary: m)
  case Nil
  show ?case by simp
next
  case (Cons y ys)
  show ?case
  proof (cases "y < m")
    case True
    from Cons.IH [of y] True show ?thesis by (auto intro: order_trans less_imp_le)
  next
    case False
    from Cons.IH [of m] False show ?thesis by (auto intro: order_trans simp: not_less)
  qed
qed

lemma add_free_keypair_eq:
  "add_free_keypair ks a (public_key kp) (private_key kp) =
     ks\<lparr>free_keypairs := (free_keypairs ks)(a := free_keypairs ks a @ [kp]),
        calls := calls ks @ [AddFreeKeypair a]\<rparr>"
  by (simp add: add_free_keypair_def Let_def record_call_def)

text \<open>
  Claim C5. For a non-empty list of algorithms,
  \<open>generate_free_keypair_for_least_provisioned_key_algo\<close> selects the algorithm of
  the list with the fewest free keypairs, the smallest name among those in the
  lexicographic order; when this count has reached \<open>max_free_keys_per_algo\<close> it
  returns \<open>False\<close> and has only read the counts; otherwise, when the generation
  function returns a keypair, it returns \<open>True\<close>, and this one keypair has been added
  to the free keypairs of the selected algorithm, nothing else.
\<close>

theorem generate_free_keypair_least_provisioned:
  assumes "key_algos \<noteq> []"
  shows "\<exists>key_algo\<in>set key_algos.
      (\<forall>b\<in>set key_algos.
          length (free_keypairs ks key_algo) < length (free_keypairs ks b)
          \<or> (length (free_keypairs ks key_algo) = length (free_keypairs ks b) \<and> key_algo \<le> b))
      \<and> (max_free_keys_per_algo \<le> int (length (free_keypairs ks key_algo)) \<longrightarrow>
           generate_free_keypair_for_least_provisioned_key_algo
               ks max_free_keys_per_algo key_generation_func key_algos =
             (Inr False, ks\<lparr>calls := calls ks @ map GetFreeKeypairsCount key_algos\<rparr>))
      \<and> (\<forall>kp. int (length (free_keypairs ks key_algo)) < max_free_keys_per_algo
               \<and> key_generation_func key_algo = Inr kp \<longrightarrow>
           generate_free_keypair_for_least_provisioned_key_algo
               ks max_free_keys_per_algo key_generation_func key_algos =
             (Inr True,
              ks\<lparr>free_keypairs :=
                   (free_keypairs ks)(key_algo := free_keypairs ks key_algo @ [kp]),
                 calls := calls ks @ map GetFreeKeypairsCount key_algos
                   @ [AddFreeKeypair key_algo]\<rparr>))"
proof -
  let ?f = "\<lambda>a. (length (free_keypairs ks a), a)"
  let ?ks1 = "ks\<lparr>calls := calls ks @ map GetFreeKeypairsCount key_algos\<rparr>"
  from assms obtain a0 rest where algos: "key_algos = a0 # rest"
    by (cases key_algos) auto
  obtain cnt key_algo where m: "min_from (?f a0) (map ?f rest) = (cnt, key_algo)"
    by (cases "min_from (?f a0) (map ?f rest)")
  from min_from_least [of "?f a0" "map ?f rest"] m
  have mem: "(cnt, key_algo) \<in> set (map ?f key_algos)"
    and least: "\<forall>x\<in>set (map ?f key_algos). (cnt, key_algo) \<le> x"
    by (simp_all add: algos)
  from mem have ka: "key_algo \<in> set key_algos" and cnt: "cnt = length (free_keypairs ks key_algo)"
    by auto
  have ord: "length (free_keypairs ks key_algo) < length (free_keypairs ks b)
      \<or> (length (free_keypairs ks key_algo) = length (free_keypairs ks b) \<and> key_algo \<le> b)"
    if "b \<in> set key_algos" for b
  proof -
    from that least have "(cnt, key_algo) \<le> ?f b" by simp
    then show ?thesis unfolding cnt by (auto simp add: less_eq_prod_def)
  qed
  have run: "generate_free_keypair_for_least_provisioned_key_algo
               ks max_free_keys_per_algo key_generation_func key_algos =
      (if int cnt \<ge> max_free_keys_per_algo then (Inr False, ?ks1)
       else
         (case key_generation_func key_algo of
            Inl e \<Rightarrow> (Inl e, ?ks1)
          | Inr kp \<Rightarrow>
              (Inr True, add_free_keypair ?ks1 key_algo (public_key kp) (private_key kp))))"
    using m unfolding algos
    by (simp add: generate_free_keypair_for_least_provisioned_key_algo_def free_keys_counts_eq
        split: sum.splits)
  have full: "generate_free_keypair_for_least_provisioned_key_algo
               ks max_free_keys_per_algo key_generation_func key_algos = (Inr False, ?ks1)"
    if "max_free_keys_per_algo \<le> int (length (free_keypairs ks key_algo))"
    using that unfolding run cnt by simp
  have gen: "generate_free_keypair_for_least_provisioned_key_algo
               ks max_free_keys_per_algo key_generation_func key_algos =
             (Inr True,
              ks\<lparr>free_keypairs :=
                   (free_keypairs ks)(key_algo := free_keypairs ks key_algo @ [kp]),
                 calls := calls ks @ map GetFreeKeypairsCount key_algos
                   @ [AddFreeKeypair key_algo]\<rparr>)"
    if "int (length (free_keypairs ks key_algo)) < max_free_keys_per_algo"
      and "key_generation_func key_algo = Inr kp" for kp
    using that unfolding run cnt by (simp add: add_free_keypair_eq)
  from ka ord full gen show ?thesis by blast
qed

lemma example_algos_nonempty: "[''RSA_OAEP'', ''DSA_DSS'', ''RSA_PSS''] \<noteq> []"
  by simp

text \<open>
  Three algorithms with 0, 0 and 1 free keypairs: \<open>DSA_DSS\<close> is selected and
  gets a keypair when the limit is 1; nothing is generated when the limit is 0.
\<close>

theorem generate_free_keypair_least_provisioned_witness:
  "generate_free_keypair_for_least_provisioned_key_algo example_key_storage 1
       (\<lambda>a. generate_keypair example_primitives a None) [''RSA_OAEP'', ''DSA_DSS'', ''RSA_PSS''] =
     (Inr True,
      example_key_storage
        \<lparr>free_keypairs := (free_keypairs example_key_storage)
           (''DSA_DSS'' := [\<lparr>public_key = ''PUB:DSA_DSS'', private_key = ''PRIV:DSA_DSS''\<rparr>]),
         calls := [GetFreeKeypairsCount ''RSA_OAEP'', GetFreeKeypairsCount ''DSA_DSS'',
                   GetFreeKeypairsCount ''RSA_PSS'', AddFreeKeypair ''DSA_DSS'']\<rparr>)
   \<and> generate_free_keypair_for_least_provisioned_key_algo example_key_storage 0
       (\<lambda>a. generate_keypair example_primitives a None) [''RSA_OAEP'', ''DSA_DSS'', ''RSA_PSS''] =
     (Inr False,
      example_key_storage
        \<lparr>calls := [GetFreeKeypairsCount ''RSA_OAEP'', GetFreeKeypairsCount ''DSA_DSS'',
                   GetFreeKeypairsCount ''RSA_PSS'']\<rparr>)"
proof -
  let ?gen = "\<lambda>a. generate_keypair example_primitives a None"
  let ?algos = "[''RSA_OAEP'', ''DSA_DSS'', ''RSA_PSS'']"
  have least: "key_algo = ''DSA_DSS''"
    if "key_algo \<in> set ?algos"
      and "\<forall>b\<in>set ?algos.
          length (free_keypairs example_key_storage key_algo)
            < length (free_keypairs example_key_storage b)
          \<or> (length (free_keypairs example_key_storage key_algo)
                = length (free_keypairs example_key_storage b) \<and> key_algo \<le> b)"
    for key_algo
    using that by (auto simp add: example_key_storage_def)
  have cnt: "length (free_keypairs example_key_storage ''DSA_DSS'') = 0"
    and calls: "calls example_key_storage = []"
    and g: "?gen ''DSA_DSS'' = Inr \<lparr>public_key = ''PUB:DSA_DSS'', private_key = ''PRIV:DSA_DSS''\<rparr>"
    by (simp_all add: example_key_storage_def example_primitives_def)
  have a: "generate_free_keypair_for_least_provisioned_key_algo example_key_storage 1
       ?gen ?algos =
     (Inr True,
      example_key_storage
        \<lparr>free_keypairs := (free_keypairs example_key_storage)
           (''DSA_DSS'' := [\<lparr>public_key = ''PUB:DSA_DSS'', private_key = ''PRIV:DSA_DSS''\<rparr>]),
         calls := [GetFreeKeypairsCount ''RSA_OAEP'', GetFreeKeypairsCount ''DSA_DSS'',
                   GetFreeKeypairsCount ''RSA_PSS'', AddFreeKeypair ''DSA_DSS'']\<rparr>)"
  proof -
    from generate_free_keypair_least_provisioned
      [OF example_algos_nonempty, of example_key_storage 1 ?gen]
    obtain key_algo where k: "key_algo \<in> set ?algos"
      and o: "\<forall>b\<in>set ?algos.
          length (free_keypairs example_key_storage key_algo)
            < length (free_keypairs example_key_storage b)
          \<or> (length (free_keypairs example_key_storage key_algo)
                = length (free_keypairs example_key_storage b) \<and> key_algo \<le> b)"
      and r: "\<forall>kp. int (length (free_keypairs example_key_storage key_algo)) < 1
               \<and> ?gen key_algo = Inr kp \<longrightarrow>
           generate_free_keypair_for_least_provisioned_key_algo example_key_storage 1 ?gen ?algos =
             (Inr True,
              example_key_storage\<lparr>free_keypairs :=
                   (free_keypairs example_key_storage)
                     (key_algo := free_keypairs example_key_storage key_algo @ [kp]),
                 calls := calls example_key_storage @ map GetFreeKeypairsCount ?algos
                   @ [AddFreeKeypair key_algo]\<rparr>)"
      by blast
    from least [OF k o] have "key_algo = ''DSA_DSS''" .
    with r g cnt calls show ?thesis
      by (simp add: example_key_storage_def)
  qed
  have b: "generate_free_keypair_for_least_provisioned_key_algo example_key_storage 0
       ?gen ?algos =
     (Inr False,
      example_key_storage
        \<lparr>calls := [GetFreeKeypairsCount ''RSA_OAEP'', GetFreeKeypairsCount ''DSA_DSS'',
                   GetFreeKeypairsCount ''RSA_PSS'']\<rparr>)"
  proof -
    from generate_free_keypair_least_provisioned
      [OF example_algos_nonempty, of example_key_storage 0 ?gen]
    obtain key_algo where
      r: "0 \<le> int (length (free_keypairs example_key_storage key_algo)) \<longrightarrow>
           generate_free_keypair_for_least_provisioned_key_algo example_key_storage 0 ?gen ?algos =
             (Inr False,
              example_key_storage\<lparr>calls := calls example_key_storage
                 @ map GetFreeKeypairsCount ?algos\<rparr>)"
      by blast
    with calls show ?thesis by simp
  qed
  from a b show ?thesis by blast
qed

end
